theory Spec2Isabelle
  imports Main "HOL-Library.AList" "HOL-Library.Sublist"
begin

section \<open>Python values shared by both subsystems\<close>

text \<open>
  A Python \<open>dict\<close> keeps insertion order and has distinct keys. It is modelled as an
  association list; \<open>d[k] = v\<close> is \<open>AList.update k v d\<close> (the value is replaced in
  place when the key is present, the pair is appended otherwise), \<open>d[k]\<close> and
  \<open>d.get(k)\<close> are \<open>map_of d k\<close>, and \<open>k in d\<close> is \<open>k \<in> fst ` set d\<close>.
\<close>

type_synonym ('k, 'v) dict = "('k \<times> 'v) list"

definition dict_set :: "('k, 'v) dict \<Rightarrow> 'k \<Rightarrow> 'v \<Rightarrow> ('k, 'v) dict" where
  "dict_set d k v = AList.update k v d"

definition dict_has :: "('k, 'v) dict \<Rightarrow> 'k \<Rightarrow> bool" where
  "dict_has d k = (k \<in> fst ` set d)"

datatype level = INFO | ERROR | CRITICAL

datatype error =
    FileNotFoundError
  | JSONDecodeError
  | ValueError string
  | RuntimeError string
  | TypeError
  | UnboundLocalError string
  | Unrepresentable

section \<open>The checkpoint document (orchestrator.py)\<close>

text \<open>
  The document that \<open>json.dump\<close> writes and \<open>json.load\<close> reads. The text layer of
  the json library (indentation, escaping, parsing) is outside the repository; a file holds
  the JSON value itself. A write that fails after the file was opened with mode \<open>'w'\<close>
  leaves a truncated file, on which \<open>json.load\<close> raises \<open>JSONDecodeError\<close>.
\<close>

datatype json =
    JNull
  | JBool bool
  | JInt int
  | JString string
  | JArray "json list"
  | JObject "(string \<times> json) list"

datatype file_content = Doc json | Truncated

record task_record =
  directory :: string
  status :: "(string, int) dict"

record checkpoint =
  task_name :: string
  input_type_flags :: "bool list"
  batch_size :: int
  max_workers :: int
  tasks :: "task_record list"
  progress :: "(string, int) dict"

text \<open>class \<open>Task\<close>: the work unit handed to the queue.\<close>

record task =
  task_directory :: string
  video_files :: "string list"
  task_status :: "(string, int) dict"

subsection \<open>\<open>json.dump\<close> of the checkpoint dictionary\<close>

definition json_of_status :: "(string, int) dict \<Rightarrow> json" where
  "json_of_status d = JObject (map (\<lambda>(f, v). (f, JInt v)) d)"

definition json_of_task :: "task_record \<Rightarrow> json" where
  "json_of_task t =
     JObject [(''directory'', JString (directory t)), (''status'', json_of_status (status t))]"

text \<open>The tuple \<open>input_type_flags\<close> is written as a JSON array.\<close>

definition json_dump :: "checkpoint \<Rightarrow> json" where
  "json_dump c = JObject
     [(''task_name'', JString (task_name c)),
      (''input_type_flags'', JArray (map JBool (input_type_flags c))),
      (''batch_size'', JInt (batch_size c)),
      (''max_workers'', JInt (max_workers c)),
      (''tasks'', JArray (map json_of_task (tasks c))),
      (''progress'', json_of_status (progress c))]"

subsection \<open>\<open>json.load\<close> and \<open>_validate_checkpoint_format\<close>\<close>

text \<open>
  \<open>json.load\<close> turns a JSON object into a dict: the pairs are inserted in order, a
  repeated key overwrites the earlier value.
\<close>

definition dict_of_pairs :: "('k \<times> 'v) list \<Rightarrow> ('k, 'v) dict" where
  "dict_of_pairs ps = foldl (\<lambda>d (k, v). dict_set d k v) [] ps"

text \<open>
  The source validates only the six top-level fields. The typed model holds a status map
  of integers, task records with a string directory, and boolean flags; a document that
  passes the source's validation with other contents there is not a value of the model,
  and the readers below answer \<open>None\<close> for it (reported as \<open>Unrepresentable\<close>).
\<close>

fun those_list :: "'a option list \<Rightarrow> 'a list option" where
  "those_list [] = Some []"
| "those_list (x # xs) =
     (case x of None \<Rightarrow> None
      | Some y \<Rightarrow> (case those_list xs of None \<Rightarrow> None | Some ys \<Rightarrow> Some (y # ys)))"

definition int_of_json :: "json \<Rightarrow> int option" where
  "int_of_json j = (case j of JInt n \<Rightarrow> Some n | _ \<Rightarrow> None)"

definition bool_of_json :: "json \<Rightarrow> bool option" where
  "bool_of_json j = (case j of JBool b \<Rightarrow> Some b | _ \<Rightarrow> None)"

definition status_of_json :: "json \<Rightarrow> (string, int) dict option" where
  "status_of_json j =
     (case j of
        JObject ps \<Rightarrow>
          (let d = dict_of_pairs ps in
           case those_list (map (\<lambda>(f, v). int_of_json v) d) of
             None \<Rightarrow> None
           | Some vs \<Rightarrow> Some (zip (map fst d) vs))
      | _ \<Rightarrow> None)"

definition task_of_json :: "json \<Rightarrow> task_record option" where
  "task_of_json j =
     (case j of
        JObject ps \<Rightarrow>
          (let d = dict_of_pairs ps in
           case (map_of d ''directory'', map_of d ''status'') of
             (Some (JString dir), Some st) \<Rightarrow>
               (case status_of_json st of
                  None \<Rightarrow> None
                | Some s \<Rightarrow> Some \<lparr>directory = dir, status = s\<rparr>)
           | _ \<Rightarrow> None)
      | _ \<Rightarrow> None)"

text \<open>
  \<open>_initialize_checkpoint\<close> after \<open>json.load\<close>: the list under \<open>input_type_flags\<close>
  becomes a tuple, then \<open>_validate_checkpoint_format\<close> runs its checks in the source's
  order. A JSON array is the only value that can become a tuple, so any other value fails
  the tuple check.
\<close>

definition validate_checkpoint_format :: "(string, json) dict \<Rightarrow> error + checkpoint" where
  "validate_checkpoint_format data =
     (if \<not> list_all (dict_has data)
            [''task_name'', ''input_type_flags'', ''batch_size'', ''max_workers'',
             ''tasks'', ''progress'']
      then Inl (ValueError ''Checkpoint file is missing required keys.'')
      else case map_of data ''task_name'' of
        Some (JString name) \<Rightarrow>
          (case map_of data ''input_type_flags'' of
             Some (JArray flags) \<Rightarrow>
               (if length flags \<noteq> 4 then Inl (ValueError ''Invalid format for input_type_flags.'')
                else case map_of data ''batch_size'' of
                  Some (JInt bs) \<Rightarrow>
                    (if bs \<le> 0 then Inl (ValueError ''Invalid format for batch_size.'')
                     else case map_of data ''max_workers'' of
                       Some (JInt mw) \<Rightarrow>
                         (if mw \<le> 0 then Inl (ValueError ''Invalid format for max_workers.'')
                          else case map_of data ''tasks'' of
                            Some (JArray ts) \<Rightarrow>
                              (case map_of data ''progress'' of
                                 Some (JObject pr) \<Rightarrow>
                                   (case (those_list (map bool_of_json flags),
                                          those_list (map task_of_json ts),
                                          status_of_json (JObject pr)) of
                                      (Some fl, Some tks, Some pg) \<Rightarrow>
                                        Inr \<lparr>task_name = name, input_type_flags = fl,
                                             batch_size = bs, max_workers = mw,
                                             tasks = tks, progress = pg\<rparr>
                                    | _ \<Rightarrow> Inl Unrepresentable)
                               | _ \<Rightarrow> Inl (ValueError ''Invalid format for progress.''))
                          | _ \<Rightarrow> Inl (ValueError ''Invalid format for tasks.''))
                     | Some (JBool b) \<Rightarrow>
                         (if b then Inl Unrepresentable
                          else Inl (ValueError ''Invalid format for max_workers.''))
                     | _ \<Rightarrow> Inl (ValueError ''Invalid format for max_workers.''))
                | Some (JBool b) \<Rightarrow>
                    (if b then Inl Unrepresentable
                     else Inl (ValueError ''Invalid format for batch_size.''))
                | _ \<Rightarrow> Inl (ValueError ''Invalid format for batch_size.''))
           | _ \<Rightarrow> Inl (ValueError ''Invalid format for input_type_flags.''))
      | _ \<Rightarrow> Inl (ValueError ''Invalid format for task_name.''))"

text \<open>
  Reading the checkpoint file: the part of \<open>_initialize_checkpoint\<close> inside its
  \<open>try\<close>. Only a JSON object reaches the field checks. On an array or a string the test
  \<open>'input_type_flags' in data\<close> looks for an equal element or for the substring: when it
  finds one, the subscript \<open>data['input_type_flags']\<close> raises \<open>TypeError\<close>; otherwise
  the key check of \<open>_validate_checkpoint_format\<close> raises \<open>ValueError\<close>. On a number, a
  boolean or \<open>null\<close> the membership test itself raises \<open>TypeError\<close>.
\<close>

definition load_checkpoint :: "(string \<rightharpoonup> file_content) \<Rightarrow> string \<Rightarrow> error + checkpoint" where
  "load_checkpoint files path =
     (case files path of
        None \<Rightarrow> Inl FileNotFoundError
      | Some Truncated \<Rightarrow> Inl JSONDecodeError
      | Some (Doc doc) \<Rightarrow>
          (case doc of
             JObject ps \<Rightarrow> validate_checkpoint_format (dict_of_pairs ps)
           | JArray xs \<Rightarrow>
               if JString ''input_type_flags'' \<in> set xs then Inl TypeError
               else Inl (ValueError ''Checkpoint file is missing required keys.'')
           | JString str \<Rightarrow>
               if sublist ''input_type_flags'' str then Inl TypeError
               else Inl (ValueError ''Checkpoint file is missing required keys.'')
           | _ \<Rightarrow> Inl TypeError))"

section \<open>The orchestrator\<close>

text \<open>
  Whether a write to a path succeeds is decided by the environment: \<open>open\<close> may fail
  (the file is untouched) or \<open>json.dump\<close> may fail after the file was opened for
  writing (the file is left truncated).
\<close>

datatype write_outcome = WriteOk | OpenFails | DumpFails

type_synonym io_env = "string \<Rightarrow> write_outcome"

record orchestrator =
  checkpoint_file :: string
  self_task_name :: string
  self_batch_size :: int
  self_max_workers :: int
  force_restart :: bool
  scratch_path :: string
  user_name :: string
  fallback_directories :: "string list"
  checkpoint_data :: checkpoint
  task_queue :: "task list"
  files :: "string \<rightharpoonup> file_content"
  logged :: "(level \<times> string) list"

definition logging :: "level \<Rightarrow> string \<Rightarrow> orchestrator \<Rightarrow> orchestrator" where
  "logging lv msg self = self\<lparr>logged := logged self @ [(lv, msg)]\<rparr>"

definition os_path_join :: "string \<Rightarrow> string \<Rightarrow> string" where
  "os_path_join a b =
     (if b \<noteq> [] \<and> hd b = CHR ''/'' then b
      else if a = [] \<or> last a = CHR ''/'' then a @ b
      else a @ ''/'' @ b)"

definition generate_fallback_directories :: "string \<Rightarrow> string \<Rightarrow> string list" where
  "generate_fallback_directories user scratch =
     [''/storage/brno2/home/'' @ user @ ''/'',
      ''/storage/plzen1/home/'' @ user @ ''/'',
      ''/storage/brno1-cerit/home/'' @ user @ ''/'',
      scratch]"

text \<open>
  \<open>with open(path, 'w') as file: json.dump(self.checkpoint_data, file, indent=4)\<close>:
  the flag says whether the block completed.
\<close>

definition dump_to :: "io_env \<Rightarrow> string \<Rightarrow> orchestrator \<Rightarrow> bool \<times> orchestrator" where
  "dump_to io path self =
     (case io path of
        WriteOk \<Rightarrow> (True, self\<lparr>files := (files self)(path \<mapsto> Doc (json_dump (checkpoint_data self)))\<rparr>)
      | OpenFails \<Rightarrow> (False, self)
      | DumpFails \<Rightarrow> (False, self\<lparr>files := (files self)(path \<mapsto> Truncated)\<rparr>))"

definition fallback_file :: "orchestrator \<Rightarrow> string \<Rightarrow> string" where
  "fallback_file self dir = os_path_join dir (self_task_name self @ ''.json'')"

fun attempt_fallback_checkpoint_write :: "io_env \<Rightarrow> string list \<Rightarrow> orchestrator \<Rightarrow> orchestrator" where
  "attempt_fallback_checkpoint_write io [] self =
     logging CRITICAL ''All attempts to write checkpoint failed. Progress may be lost.'' self"
| "attempt_fallback_checkpoint_write io (dir # dirs) self =
     (case dump_to io (fallback_file self dir) self of
        (True, self') \<Rightarrow>
          logging INFO
            (''Checkpoint successfully written to fallback location: '' @ fallback_file self dir) self'
      | (False, self') \<Rightarrow>
          attempt_fallback_checkpoint_write io dirs
            (logging ERROR (''Failed to write checkpoint to fallback location '' @ dir) self'))"

definition write_checkpoint :: "io_env \<Rightarrow> orchestrator \<Rightarrow> orchestrator" where
  "write_checkpoint io self =
     (case dump_to io (checkpoint_file self) self of
        (True, self') \<Rightarrow> self'
      | (False, self') \<Rightarrow>
          attempt_fallback_checkpoint_write io (fallback_directories self')
            (logging ERROR ''Failed to write checkpoint file'' self'))"

subsection \<open>\<open>_update_task_progress\<close> and \<open>handle_worker_update\<close>\<close>

fun index_of_first :: "('a \<Rightarrow> bool) \<Rightarrow> 'a list \<Rightarrow> nat option" where
  "index_of_first P [] = None"
| "index_of_first P (x # xs) =
     (if P x then Some 0 else map_option Suc (index_of_first P xs))"

text \<open>
  The closing loop of \<open>_update_task_progress\<close>: when every status of the record is
  \<open>-1\<close>, every status is set to \<open>-1\<close>.
\<close>

definition close_if_done :: "(string, int) dict \<Rightarrow> (string, int) dict" where
  "close_if_done st =
     (if list_all (\<lambda>(f, v). v = -1) st then map (\<lambda>(f, v). (f, -1)) st else st)"

definition update_task_progress ::
  "io_env \<Rightarrow> orchestrator \<Rightarrow> string \<Rightarrow> string \<Rightarrow> int \<Rightarrow> orchestrator" where
  "update_task_progress io self dir file last_processed_frame =
     (let cp = checkpoint_data self;
          failed = logging ERROR (''Error updating task progress for '' @ file @ '' in '' @ dir) self
      in case index_of_first (\<lambda>t. directory t = dir) (tasks cp) of
           None \<Rightarrow> failed
         | Some i \<Rightarrow>
             (let t = tasks cp ! i in
              if \<not> dict_has (status t) file then failed
              else
                (let st = close_if_done (dict_set (status t) file last_processed_frame);
                     cp' = cp\<lparr>tasks := (tasks cp)[i := t\<lparr>status := st\<rparr>],
                              progress := dict_set (progress cp) file last_processed_frame\<rparr>
                 in write_checkpoint io (self\<lparr>checkpoint_data := cp'\<rparr>))))"

text \<open>
  The values a worker can put into \<open>update_info\<close>. \<open>bool\<close> is a subclass of
  \<open>int\<close> in Python, so \<open>isinstance(True, int)\<close> holds and \<open>True\<close> counts as 1.
\<close>

datatype pyval = PyNone | PyBool bool | PyInt int | PyStr string

definition isinstance_int :: "pyval \<Rightarrow> int option" where
  "isinstance_int v =
     (case v of PyInt n \<Rightarrow> Some n | PyBool b \<Rightarrow> Some (if b then 1 else 0) | _ \<Rightarrow> None)"

definition isinstance_str :: "pyval \<Rightarrow> string option" where
  "isinstance_str v = (case v of PyStr s \<Rightarrow> Some s | _ \<Rightarrow> None)"

text \<open>
  \<open>handle_worker_update\<close> returns the exception that leaves the method, if any. Its
  \<open>except\<close> handler formats the local variables \<open>file\<close> and \<open>directory\<close> into the
  log message; when the key check raised, neither has been assigned yet and reading
  \<open>file\<close> raises \<open>UnboundLocalError\<close> inside the handler, which nothing catches.
\<close>

definition handle_worker_update ::
  "io_env \<Rightarrow> orchestrator \<Rightarrow> (string \<rightharpoonup> pyval) \<Rightarrow> error option \<times> orchestrator" where
  "handle_worker_update io self update_info =
     (case (update_info ''directory'', update_info ''file'', update_info ''status'') of
        (Some d, Some f, Some s) \<Rightarrow>
          (case (isinstance_str d, isinstance_str f, isinstance_int s) of
             (Some dir, Some file, Some last_processed_frame) \<Rightarrow>
               (None, update_task_progress io self dir file last_processed_frame)
           | _ \<Rightarrow> (None, logging ERROR ''Error handling worker update'' self))
      | _ \<Rightarrow> (Some (UnboundLocalError ''file''), self))"

subsection \<open>\<open>_manage_tasks\<close> and \<open>_queue_batch\<close>\<close>

definition queue_batch :: "io_env \<Rightarrow> task \<Rightarrow> orchestrator \<Rightarrow> orchestrator" where
  "queue_batch io t self =
     (let self1 = self\<lparr>task_queue := task_queue self @ [t]\<rparr>;
          cp = checkpoint_data self1;
          cp' = cp\<lparr>progress := foldl (\<lambda>p file. dict_set p file 0) (progress cp) (video_files t)\<rparr>
      in write_checkpoint io (self1\<lparr>checkpoint_data := cp'\<rparr>))"

text \<open>
  The inner loop of \<open>_manage_tasks\<close> over \<open>status.items()\<close>, with its two
  accumulators \<open>batch\<close> and \<open>batch_status\<close>. The bound is the orchestrator's own
  \<open>self.batch_size\<close>, not the \<open>batch_size\<close> stored in the checkpoint.
\<close>

fun batch_loop ::
  "io_env \<Rightarrow> string \<Rightarrow> (string \<times> int) list \<Rightarrow> string list \<Rightarrow> (string, int) dict \<Rightarrow>
   orchestrator \<Rightarrow> string list \<times> (string, int) dict \<times> orchestrator" where
  "batch_loop io dir [] batch batch_status self = (batch, batch_status, self)"
| "batch_loop io dir ((file, prog) # rest) batch batch_status self =
     (if prog \<noteq> -1 then
        (let batch' = batch @ [file];
             batch_status' = dict_set batch_status file prog
         in if int (length batch') \<ge> self_batch_size self
            then batch_loop io dir rest [] []
                   (queue_batch io
                      \<lparr>task_directory = dir, video_files = batch', task_status = batch_status'\<rparr> self)
            else batch_loop io dir rest batch' batch_status' self)
      else batch_loop io dir rest batch batch_status self)"

text \<open>
  One iteration of the outer loop. An empty \<open>directory\<close> is falsy: the body raises
  \<open>ValueError\<close>, which the loop logs before it goes on to the next record.
\<close>

definition manage_task :: "io_env \<Rightarrow> task_record \<Rightarrow> orchestrator \<Rightarrow> orchestrator" where
  "manage_task io t self =
     (if directory t = [] then
        logging ERROR (''Error managing task for directory '' @ directory t) self
      else if list_all (\<lambda>(f, v). v = -1) (status t) then self
      else
        (case batch_loop io (directory t) (status t) [] [] self of
           (batch, batch_status, self') \<Rightarrow>
             if batch \<noteq> [] then
               queue_batch io
                 \<lparr>task_directory = directory t, video_files = batch, task_status = batch_status\<rparr> self'
             else self'))"

definition manage_tasks :: "io_env \<Rightarrow> orchestrator \<Rightarrow> orchestrator" where
  "manage_tasks io self =
     foldl (\<lambda>s t. manage_task io t s) self (tasks (checkpoint_data self))"

subsection \<open>\<open>_create_new_checkpoint\<close> and \<open>_initialize_checkpoint\<close>\<close>

text \<open>
  The collaborators of \<open>_create_new_checkpoint\<close> are not part of the sources and are
  parameters here: \<open>validate_and_process_input\<close> applied to the orchestrator's input (the
  directories and the four type flags, or \<open>None\<close> when it raises), and the two file
  listings (\<open>None\<close> when they raise).
\<close>

record collaborators =
  validate_and_process_input :: "(string list \<times> bool list) option"
  list_files_s3 :: "string \<Rightarrow> string list option"
  list_files :: "string \<Rightarrow> string list option"

text \<open>
  \<open>_prepare_initial_status\<close>; \<open>None\<close> stands for any exception, since the caller turns
  every exception into one \<open>RuntimeError\<close>. A subscript beyond the end of the flags raises.
\<close>

definition tuple_get :: "'a list \<Rightarrow> nat \<Rightarrow> 'a option" where
  "tuple_get xs i = (if i < length xs then Some (xs ! i) else None)"

definition initial_status :: "string list \<Rightarrow> (string, int) dict" where
  "initial_status file_list = dict_of_pairs (map (\<lambda>file. (file, 0)) file_list)"

definition prepare_initial_status ::
  "collaborators \<Rightarrow> string \<Rightarrow> bool list \<Rightarrow> (string, int) dict option" where
  "prepare_initial_status env dir input_flags =
     (case tuple_get input_flags 0 of
        None \<Rightarrow> None
      | Some True \<Rightarrow> map_option initial_status (list_files_s3 env dir)
      | Some False \<Rightarrow>
          (case tuple_get input_flags 2 of
             None \<Rightarrow> None
           | Some True \<Rightarrow> map_option initial_status (list_files env dir)
           | Some False \<Rightarrow>
               (case tuple_get input_flags 1 of
                  None \<Rightarrow> None
                | Some True \<Rightarrow> Some (initial_status [dir])
                | Some False \<Rightarrow>
                    (case tuple_get input_flags 3 of
                       None \<Rightarrow> None
                     | Some True \<Rightarrow> Some (initial_status [dir])
                     | Some False \<Rightarrow> None))))"

definition create_new_checkpoint ::
  "io_env \<Rightarrow> collaborators \<Rightarrow> orchestrator \<Rightarrow> error option \<times> orchestrator" where
  "create_new_checkpoint io env self =
     (let failed = (\<lambda>s. (Some (RuntimeError ''Checkpoint creation failed due to invalid input''),
                         logging ERROR ''Failed to create new checkpoint due to invalid input data'' s))
      in case validate_and_process_input env of
           None \<Rightarrow> failed self
         | Some (directories, input_flags) \<Rightarrow>
             (case those_list (map (\<lambda>dir. prepare_initial_status env dir input_flags) directories) of
                None \<Rightarrow> failed (logging ERROR ''Error preparing initial status for directory'' self)
              | Some sts \<Rightarrow>
                  (None,
                   write_checkpoint io
                     (self\<lparr>checkpoint_data :=
                        \<lparr>task_name = self_task_name self,
                         input_type_flags = input_flags,
                         batch_size = self_batch_size self,
                         max_workers = self_max_workers self,
                         tasks = map (\<lambda>(dir, st). \<lparr>directory = dir, status = st\<rparr>)
                                   (zip directories sts),
                         progress = []\<rparr>\<rparr>))))"

text \<open>
  \<open>_initialize_checkpoint\<close>. The handler catches \<open>FileNotFoundError\<close>, \<open>ValueError\<close>
  and \<open>JSONDecodeError\<close>; anything else leaves the method as it is. The source stores
  the loaded document in \<open>checkpoint_data\<close> before it validates it; when validation
  fails the method either replaces it by a new checkpoint or raises out of the constructor,
  so the model leaves the field as it was.
\<close>

definition caught_on_load :: "error \<Rightarrow> bool" where
  "caught_on_load e =
     (case e of FileNotFoundError \<Rightarrow> True | JSONDecodeError \<Rightarrow> True | ValueError m \<Rightarrow> True
      | _ \<Rightarrow> False)"

definition initialize_checkpoint ::
  "io_env \<Rightarrow> collaborators \<Rightarrow> orchestrator \<Rightarrow> error option \<times> orchestrator" where
  "initialize_checkpoint io env self =
     (case load_checkpoint (files self) (checkpoint_file self) of
        Inr c \<Rightarrow> (None, self\<lparr>checkpoint_data := c\<rparr>)
      | Inl e \<Rightarrow>
          if caught_on_load e then
            (let self1 = logging ERROR ''Error reading checkpoint file'' self in
             if force_restart self1 then
               create_new_checkpoint io env
                 (logging INFO ''Force restart enabled. Creating a new checkpoint.'' self1)
             else (Some (RuntimeError ''Unable to proceed due to checkpoint file issue''), self1))
          else (Some e, self))"

section \<open>The resilient writer (database_manipulator.py)\<close>

text \<open>
  The \<open>data\<close> argument of \<open>safe_execute\<close>: \<open>None\<close>, one tuple of cell values, or a
  list whose items are tuples or plain values. A row of \<open>add_to_batch\<close> is a dictionary
  from column names to cell values.
\<close>

datatype sql_item = Tup "pyval list" | Cell pyval

datatype sql_data = NoData | TupleData "pyval list" | ListData "sql_item list"

text \<open>\<open>if data:\<close> holds unless \<open>data\<close> is \<open>None\<close>, the empty tuple or the empty list.\<close>

definition truthy :: "sql_data \<Rightarrow> bool" where
  "truthy data =
     (case data of NoData \<Rightarrow> False | TupleData r \<Rightarrow> r \<noteq> [] | ListData xs \<Rightarrow> xs \<noteq> [])"

definition is_tuple :: "sql_item \<Rightarrow> bool" where
  "is_tuple x = (case x of Tup r \<Rightarrow> True | Cell v \<Rightarrow> False)"

text \<open>
  What lies outside the sources is a parameter: whether \<open>sqlite3.connect\<close> and the
  statement (with its \<open>BEGIN\<close> and \<open>commit\<close>) succeed at the n-th attempt the writer
  makes, the value the n-th call of \<open>get_numeric_hash\<close> returns, and the folder
  \<open>Manipulator.create_folders\<close> returns. The file operations of \<open>dump_to_csv\<close> are
  taken to succeed. Output written with \<open>print\<close> is not modelled.
\<close>

record db_env =
  connect_ok :: "nat \<Rightarrow> bool"
  statement_ok :: "nat \<Rightarrow> bool"
  get_numeric_hash :: "nat \<Rightarrow> string"
  dumps_folder :: string

text \<open>
  The writer object together with the world it acts on: the statements committed to the
  database, the overflow files (path and rows, in creation order), and the counters that
  index the environment.
\<close>

record writer =
  db_name :: string
  conn :: bool
  batch_data :: "(string, pyval) dict list"
  batch_table :: "string option"
  writer_batch_size :: int
  committed :: "(string \<times> sql_data) list"
  dumps :: "(string, sql_data list) dict"
  attempts :: nat
  hashes_drawn :: nat

definition close_connection :: "writer \<Rightarrow> writer" where
  "close_connection w = (if conn w then w\<lparr>conn := False\<rparr> else w)"

text \<open>\<open>dump_to_csv\<close>: the row is appended to the file named by a freshly drawn hash.\<close>

definition dump_to_csv :: "db_env \<Rightarrow> writer \<Rightarrow> sql_data \<Rightarrow> writer" where
  "dump_to_csv env w data =
     (let filepath = os_path_join (dumps_folder env)
                       (''emergency_dump_'' @ db_name w @ ''_'' @
                        get_numeric_hash env (hashes_drawn w) @ ''.csv'');
          old = (case map_of (dumps w) filepath of None \<Rightarrow> [] | Some rows \<Rightarrow> rows)
      in w\<lparr>dumps := dict_set (dumps w) filepath (old @ [data]),
            hashes_drawn := Suc (hashes_drawn w)\<rparr>)"

text \<open>
  The rows handed to \<open>dump_to_csv\<close> on the final failure. When
  \<open>isinstance(data, list) and all(isinstance(d, tuple) for d in data)\<close> holds, each
  tuple is dumped on its own; anything else is dumped as one row.
\<close>

definition spilled :: "sql_data \<Rightarrow> sql_data list" where
  "spilled data =
     (case data of
        ListData xs \<Rightarrow>
          if list_all is_tuple xs
          then map (\<lambda>x. case x of Tup r \<Rightarrow> TupleData r | Cell v \<Rightarrow> TupleData [v]) xs
          else [data]
      | _ \<Rightarrow> [data])"

text \<open>
  The \<open>for attempt in range(retries)\<close> loop of \<open>safe_execute\<close>. The result is the
  exception that leaves the loop, if any. \<open>create_connection\<close> raises \<open>RuntimeError\<close>,
  which the inner handler (for \<open>sqlite3.Error\<close>) does not catch. With
  \<open>use_transaction\<close> the handler rolls back, which changes nothing that was committed.
\<close>

fun retry_loop ::
  "db_env \<Rightarrow> string \<Rightarrow> sql_data \<Rightarrow> int \<Rightarrow> bool \<Rightarrow> bool \<Rightarrow> bool \<Rightarrow> int list \<Rightarrow> writer \<Rightarrow>
   error option \<times> writer" where
  "retry_loop env sql data retries use_transaction enable_emergency_dumps
     sustain_emergency_dumps [] w = (None, w)"
| "retry_loop env sql data retries use_transaction enable_emergency_dumps
     sustain_emergency_dumps (attempt # rest) w =
     (if \<not> conn w \<and> \<not> connect_ok env (attempts w) then
        (Some (RuntimeError ''Error connecting to database''),
         w\<lparr>attempts := Suc (attempts w)\<rparr>)
      else
        (let w1 = w\<lparr>conn := True, attempts := Suc (attempts w)\<rparr> in
         if statement_ok env (attempts w) then
           (None, w1\<lparr>committed := committed w1 @ [(sql, data)]\<rparr>)
         else if attempt = retries - 1 then
           (if truthy data \<and> enable_emergency_dumps then
              (let w2 = foldl (dump_to_csv env) w1 (spilled data) in
               if \<not> sustain_emergency_dumps
               then (Some (RuntimeError ''Failed to execute SQL query''), w2)
               else retry_loop env sql data retries use_transaction enable_emergency_dumps
                      sustain_emergency_dumps rest w2)
            else (Some (RuntimeError ''Failed to execute SQL query''), w1))
         else retry_loop env sql data retries use_transaction enable_emergency_dumps
                sustain_emergency_dumps rest w1))"

text \<open>
  \<open>safe_execute\<close>: any exception of the loop is raised again as \<open>RuntimeError\<close>, and the
  connection is closed on the way out.
\<close>

definition safe_execute ::
  "db_env \<Rightarrow> writer \<Rightarrow> string \<Rightarrow> sql_data \<Rightarrow> int \<Rightarrow> bool \<Rightarrow> bool \<Rightarrow> bool \<Rightarrow>
   error option \<times> writer" where
  "safe_execute env w sql data retries use_transaction enable_emergency_dumps
     sustain_emergency_dumps =
     (case retry_loop env sql data retries use_transaction enable_emergency_dumps
             sustain_emergency_dumps (map int [0..<nat retries]) w of
        (None, w') \<Rightarrow> (None, close_connection w')
      | (Some e, w') \<Rightarrow>
          (Some (RuntimeError ''Failed to execute SQL query''), close_connection w'))"

subsection \<open>\<open>add_to_batch\<close> and \<open>flush_batch\<close>\<close>

fun join :: "string \<Rightarrow> string list \<Rightarrow> string" where
  "join sep [] = []"
| "join sep [x] = x"
| "join sep (x # y # ys) = x @ sep @ join sep (y # ys)"

definition insert_query :: "string option \<Rightarrow> (string, pyval) dict \<Rightarrow> string" where
  "insert_query table first_row =
     ''INSERT INTO '' @ (case table of None \<Rightarrow> ''None'' | Some t \<Rightarrow> t) @
     '' ('' @ join '', '' (map fst first_row) @ '') VALUES ('' @
     join '', '' (map (\<lambda>c. ''?'') first_row) @ '')''"

definition batch_rows :: "(string, pyval) dict list \<Rightarrow> sql_data" where
  "batch_rows rows = ListData (map (\<lambda>d. Tup (map snd d)) rows)"

text \<open>
  \<open>flush_batch\<close>. \<open>safe_execute\<close> raises \<open>RuntimeError\<close> only, so the handler for
  \<open>sqlite3.Error\<close> never runs and the exception leaves the method with the buffer as
  it was.
\<close>

definition flush_batch :: "db_env \<Rightarrow> writer \<Rightarrow> error option \<times> writer" where
  "flush_batch env w =
     (if batch_data w = [] then (None, w)
      else
        (case safe_execute env w (insert_query (batch_table w) (hd (batch_data w)))
                (batch_rows (batch_data w)) 3 True True True of
           (None, w') \<Rightarrow> (None, w'\<lparr>batch_data := []\<rparr>)
         | (Some e, w') \<Rightarrow> (Some e, w')))"

definition add_to_batch ::
  "db_env \<Rightarrow> writer \<Rightarrow> string \<Rightarrow> (string, pyval) dict \<Rightarrow> error option \<times> writer" where
  "add_to_batch env w table data =
     (case (if batch_table w \<noteq> None \<and> batch_table w \<noteq> Some table
            then flush_batch env w else (None, w)) of
        (Some e, w1) \<Rightarrow> (Some e, w1)
      | (None, w1) \<Rightarrow>
          (let w2 = w1\<lparr>batch_table := Some table, batch_data := batch_data w1 @ [data]\<rparr> in
           if int (length (batch_data w2)) \<ge> writer_batch_size w2
           then (None, snd (flush_batch env w2))
           else (None, w2)))"

text \<open>
  A caller that goes on after every call, whatever it raised.
\<close>

definition run_calls ::
  "db_env \<Rightarrow> writer \<Rightarrow> (string \<times> (string, pyval) dict) list \<Rightarrow> writer" where
  "run_calls env w calls = foldl (\<lambda>w (table, data). snd (add_to_batch env w table data)) w calls"

text \<open>
  \<open>__init__\<close>; the database name is the file name without directory and extension.
\<close>

definition new_writer :: "string \<Rightarrow> int \<Rightarrow> writer" where
  "new_writer name bsize =
     \<lparr>db_name = name, conn = False, batch_data = [], batch_table = None,
      writer_batch_size = bsize, committed = [], dumps = [], attempts = 0, hashes_drawn = 0\<rparr>"

section \<open>Specification-level definitions\<close>

text \<open>
  A valid checkpoint state: the four type flags, positive \<open>batch_size\<close> and
  \<open>max_workers\<close>, and dictionaries (distinct keys) for \<open>progress\<close> and every status map.
\<close>

definition valid_checkpoint :: "checkpoint \<Rightarrow> bool" where
  "valid_checkpoint c \<longleftrightarrow>
     length (input_type_flags c) = 4 \<and> 0 < batch_size c \<and> 0 < max_workers c \<and>
     distinct (map fst (progress c)) \<and>
     list_all (\<lambda>t. distinct (map fst (status t))) (tasks c)"

text \<open>
  The agreement between the flat \<open>progress\<close> map and the status maps: every file of a
  TaskRecord that also has an entry in \<open>progress\<close> has the same status in both.
\<close>

definition progress_agrees :: "checkpoint \<Rightarrow> bool" where
  "progress_agrees c =
     list_all (\<lambda>t. list_all (\<lambda>(f, v). case map_of (progress c) f of
                                          None \<Rightarrow> True | Some p \<Rightarrow> p = v) (status t))
       (tasks c)"

definition all_files :: "checkpoint \<Rightarrow> string list" where
  "all_files c = concat (map (\<lambda>t. map fst (status t)) (tasks c))"

text \<open>
  The planner as the specification words it: the records are taken in stored order, a
  record that is done yields nothing, and the incomplete entries of any other record, in
  their order, are cut into groups of \<open>n\<close> entries, the last group holding the remainder.
\<close>

function chunks :: "nat \<Rightarrow> 'a list \<Rightarrow> 'a list list" where
  "chunks n xs = (if n = 0 \<or> xs = [] then [] else take n xs # chunks n (drop n xs))"
  by pat_completeness auto

termination
  by (relation "measure (\<lambda>(n, xs). length xs)") auto






section \<open>Example states\<close>

definition always_ok :: io_env where
  "always_ok = (\<lambda>p. WriteOk)"

definition example_checkpoint :: checkpoint where
  "example_checkpoint =
     \<lparr>task_name = ''job'', input_type_flags = [False, False, True, False],
      batch_size = 2, max_workers = 2,
      tasks = [\<lparr>directory = ''A'', status = [(''A/1'', -1), (''A/2'', 5), (''A/3'', 0)]\<rparr>,
               \<lparr>directory = ''B'', status = [(''B/1'', -1)]\<rparr>],
      progress = [(''A/1'', -1), (''A/2'', 5)]\<rparr>"

definition example_orchestrator :: orchestrator where
  "example_orchestrator =
     \<lparr>checkpoint_file = ''ck/job.json'', self_task_name = ''job'', self_batch_size = 2,
      self_max_workers = 2, force_restart = False, scratch_path = ''tmp'', user_name = ''u'',
      fallback_directories = generate_fallback_directories ''u'' ''tmp'',
      checkpoint_data = example_checkpoint, task_queue = [], files = Map.empty, logged = []\<rparr>"

definition example_io :: io_env where
  "example_io p =
     (if p = ''ck/job.json'' then OpenFails
      else if p = ''/storage/brno2/home/u/job.json'' then DumpFails
      else WriteOk)"

definition scenario_orchestrator :: orchestrator where
  "scenario_orchestrator =
     example_orchestrator\<lparr>checkpoint_data := example_checkpoint\<lparr>
       tasks := [\<lparr>directory = ''A'', status = [(''A/1'', 0), (''A/2'', 0), (''A/3'', 0)]\<rparr>,
                 \<lparr>directory = ''B'', status = [(''B/1'', 0), (''B/2'', -1), (''B/3'', 4)]\<rparr>,
                 \<lparr>directory = [], status = [(''x'', 0)]\<rparr>,
                 \<lparr>directory = ''C'', status = [(''C/1'', -1)]\<rparr>],
       progress := []\<rparr>\<rparr>"


text \<open>Collaborators that all raise.\<close>

definition no_collaborators :: collaborators where
  "no_collaborators =
     \<lparr>validate_and_process_input = None, list_files_s3 = (\<lambda>dir. None),
      list_files = (\<lambda>dir. None)\<rparr>"



text \<open>An environment in which the connection opens and every statement commits.\<close>

definition working_db :: db_env where
  "working_db =
     \<lparr>connect_ok = (\<lambda>n. True), statement_ok = (\<lambda>n. True),
      get_numeric_hash = (\<lambda>n. ''17''), dumps_folder = ''dumps''\<rparr>"

section \<open>Properties\<close>

subsection \<open>Frame conditions of the checkpoint writer\<close>

lemma checkpoint_data_logging [simp]: "checkpoint_data (logging lv m self) = checkpoint_data self"
  by (simp add: logging_def)

lemma task_queue_logging [simp]: "task_queue (logging lv m self) = task_queue self"
  by (simp add: logging_def)

lemma dump_to_fields:
  "dump_to io p self = (b, self') \<Longrightarrow>
     checkpoint_data self' = checkpoint_data self \<and> task_queue self' = task_queue self \<and>
     self_batch_size self' = self_batch_size self \<and> self_task_name self' = self_task_name self \<and>
     fallback_directories self' = fallback_directories self \<and> logged self' = logged self"
  by (auto simp: dump_to_def split: write_outcome.splits)

lemma fallback_fields:
  "checkpoint_data (attempt_fallback_checkpoint_write io dirs self) = checkpoint_data self \<and>
   task_queue (attempt_fallback_checkpoint_write io dirs self) = task_queue self \<and>
   self_batch_size (attempt_fallback_checkpoint_write io dirs self) = self_batch_size self"
proof (induction dirs arbitrary: self)
  case Nil
  then show ?case by (simp add: logging_def)
next
  case (Cons d ds)
  obtain b s' where d: "dump_to io (fallback_file self d) self = (b, s')"
    by (cases "dump_to io (fallback_file self d) self")
  from dump_to_fields[OF d] Cons.IH[of "logging ERROR (''Failed to write checkpoint to fallback location '' @ d) s'"]
  show ?case using d by (cases b) (simp_all add: logging_def)
qed

lemma write_checkpoint_fields:
  "checkpoint_data (write_checkpoint io self) = checkpoint_data self \<and>
   task_queue (write_checkpoint io self) = task_queue self \<and>
   self_batch_size (write_checkpoint io self) = self_batch_size self"
proof -
  obtain b s' where d: "dump_to io (checkpoint_file self) self = (b, s')"
    by (cases "dump_to io (checkpoint_file self) self")
  from dump_to_fields[OF d] fallback_fields[of io "fallback_directories s'" "logging ERROR ''Failed to write checkpoint file'' s'"]
  show ?thesis using d by (cases b) (simp_all add: write_checkpoint_def logging_def)
qed

lemma index_of_first_Some:
  "index_of_first P xs = Some i \<Longrightarrow> i < length xs \<and> P (xs ! i) \<and> (\<forall>j<i. \<not> P (xs ! j))"
proof (induction xs arbitrary: i)
  case Nil
  then show ?case by simp
next
  case (Cons x xs)
  show ?case
  proof (cases "P x")
    case True
    with Cons.prems show ?thesis by simp
  next
    case False
    with Cons.prems obtain k where k: "index_of_first P xs = Some k" "i = Suc k" by auto
    from Cons.IH[OF k(1)] False k(2) show ?thesis
      by (auto simp: less_Suc_eq_0_disj)
  qed
qed

lemma index_of_first_None: "index_of_first P xs = None \<longleftrightarrow> (\<forall>x\<in>set xs. \<not> P x)"
  by (induction xs) auto

lemma close_if_done_id: "close_if_done st = st"
proof (cases "list_all (\<lambda>(f, v). v = -1) st")
  case True
  then have "map (\<lambda>(f, v). (f, -1)) st = st"
    by (induction st) auto
  with True show ?thesis by (simp add: close_if_done_def)
next
  case False
  then show ?thesis by (simp add: close_if_done_def)
qed

lemma update_task_progress_found:
  assumes "index_of_first (\<lambda>t. directory t = dir) (tasks (checkpoint_data self)) = Some i"
    and "dict_has (status (tasks (checkpoint_data self) ! i)) file"
  shows "checkpoint_data (update_task_progress io self dir file v) =
     (checkpoint_data self)\<lparr>
        tasks := (tasks (checkpoint_data self))
                   [i := (tasks (checkpoint_data self) ! i)
                           \<lparr>status := dict_set (status (tasks (checkpoint_data self) ! i)) file v\<rparr>],
        progress := dict_set (progress (checkpoint_data self)) file v\<rparr>"
  using assms
  by (simp add: update_task_progress_def Let_def write_checkpoint_fields close_if_done_id)

subsection \<open>Progress updates on a terminal file\<close>

text \<open>
  C1 (as amended). \<open>_update_task_progress\<close> has no guard for the terminal status: for
  a file whose status is \<open>-1\<close> in the first TaskRecord of the named directory, the update
  stores the reported status in the record's status map and in the flat progress map. The
  status therefore stays \<open>-1\<close> exactly when the reported status is \<open>-1\<close>.
\<close>

theorem update_task_progress_overwrites_terminal:
  assumes "index_of_first (\<lambda>t. directory t = dir) (tasks (checkpoint_data self)) = Some i"
    and "map_of (status (tasks (checkpoint_data self) ! i)) file = Some (-1)"
  shows "map_of (status (tasks (checkpoint_data (update_task_progress io self dir file v)) ! i)) file = Some v
       \<and> map_of (progress (checkpoint_data (update_task_progress io self dir file v))) file = Some v"
proof -
  from assms(2) have has: "dict_has (status (tasks (checkpoint_data self) ! i)) file"
    by (auto simp: dict_has_def dest: map_of_SomeD intro: rev_image_eqI)
  from index_of_first_Some[OF assms(1)] have len: "i < length (tasks (checkpoint_data self))"
    by simp
  show ?thesis
    by (simp add: update_task_progress_found[OF assms(1) has] len dict_set_def update_conv')
qed

text \<open>C1, witness: the file \<open>A/1\<close> of the example is terminal and receives status 7.\<close>

theorem update_task_progress_overwrites_terminal_witness:
  "map_of (status (tasks (checkpoint_data
      (update_task_progress always_ok example_orchestrator ''A'' ''A/1'' 7)) ! 0)) ''A/1'' = Some 7
   \<and> map_of (progress (checkpoint_data
      (update_task_progress always_ok example_orchestrator ''A'' ''A/1'' 7))) ''A/1'' = Some 7"
proof -
  have a: "index_of_first (\<lambda>t. directory t = ''A'') (tasks (checkpoint_data example_orchestrator)) = Some 0"
    by (simp add: example_orchestrator_def example_checkpoint_def)
  have b: "map_of (status (tasks (checkpoint_data example_orchestrator) ! 0)) ''A/1'' = Some (-1)"
    by (simp add: example_orchestrator_def example_checkpoint_def)
  from update_task_progress_overwrites_terminal[OF a b] show ?thesis .
qed

text \<open>
  C1 as stated fails: in the example the file \<open>A/1\<close> has status \<open>-1\<close> in both maps,
  and after an update reporting frame 7 neither map holds \<open>-1\<close> for it.
\<close>

theorem terminal_status_counterexample:
  "map_of (status (tasks (checkpoint_data example_orchestrator) ! 0)) ''A/1'' = Some (-1)
   \<and> map_of (progress (checkpoint_data example_orchestrator)) ''A/1'' = Some (-1)
   \<and> map_of (status (tasks (checkpoint_data
        (update_task_progress always_ok example_orchestrator ''A'' ''A/1'' 7)) ! 0)) ''A/1'' \<noteq> Some (-1)
   \<and> map_of (progress (checkpoint_data
        (update_task_progress always_ok example_orchestrator ''A'' ''A/1'' 7))) ''A/1'' \<noteq> Some (-1)"
  by (simp add: example_orchestrator_def example_checkpoint_def update_task_progress_def
      write_checkpoint_def dump_to_def always_ok_def dict_has_def dict_set_def close_if_done_def
      Let_def)

lemma fallback_file_cong [simp]:
  "fallback_file (self\<lparr>files := fs\<rparr>) = fallback_file self"
  "fallback_file (self\<lparr>logged := lg\<rparr>) = fallback_file self"
  by (simp_all add: fallback_file_def fun_eq_iff)

lemma attempt_fallback_step:
  "attempt_fallback_checkpoint_write io (d # ds) self =
     (case io (fallback_file self d) of
        WriteOk \<Rightarrow>
          self\<lparr>files := (files self)(fallback_file self d \<mapsto> Doc (json_dump (checkpoint_data self))),
               logged := logged self @ [(INFO,
                 ''Checkpoint successfully written to fallback location: '' @ fallback_file self d)]\<rparr>
      | OpenFails \<Rightarrow>
          attempt_fallback_checkpoint_write io ds
            (self\<lparr>logged := logged self @
               [(ERROR, ''Failed to write checkpoint to fallback location '' @ d)]\<rparr>)
      | DumpFails \<Rightarrow>
          attempt_fallback_checkpoint_write io ds
            (self\<lparr>files := (files self)(fallback_file self d \<mapsto> Truncated),
                  logged := logged self @
               [(ERROR, ''Failed to write checkpoint to fallback location '' @ d)]\<rparr>))"
  by (simp add: dump_to_def logging_def split: write_outcome.splits)

lemma attempt_fallback_files_aux:
  "fallback_file self = F \<Longrightarrow> checkpoint_data self = cp \<Longrightarrow>
   files (attempt_fallback_checkpoint_write io dirs self) q =
     (case dropWhile (\<lambda>d. io (F d) \<noteq> WriteOk) dirs of
        d # rest \<Rightarrow>
          if q = F d then Some (Doc (json_dump cp))
          else if q \<in> F ` set (takeWhile (\<lambda>d. io (F d) \<noteq> WriteOk) dirs) \<and> io q = DumpFails
          then Some Truncated else files self q
      | [] \<Rightarrow>
          if q \<in> F ` set dirs \<and> io q = DumpFails
          then Some Truncated else files self q)"
proof (induction dirs arbitrary: self)
  case Nil
  show ?case by (simp add: logging_def)
next
  case (Cons d ds)
  note step = attempt_fallback_step[of io d ds self]
  show ?case
  proof (cases "io (F d)")
    case WriteOk
    with Cons.prems show ?thesis unfolding step by simp
  next
    case OpenFails
    let ?s = "self\<lparr>logged := logged self @
               [(ERROR, ''Failed to write checkpoint to fallback location '' @ d)]\<rparr>"
    have a: "fallback_file ?s = F" "checkpoint_data ?s = cp" using Cons.prems by simp_all
    have b: "files ?s q = files self q" by simp
    from OpenFails Cons.prems have st: "attempt_fallback_checkpoint_write io (d # ds) self =
      attempt_fallback_checkpoint_write io ds ?s" unfolding step by simp
    show ?thesis unfolding st Cons.IH[OF a] b using OpenFails
      by (cases "dropWhile (\<lambda>d. io (F d) \<noteq> WriteOk) ds") auto
  next
    case DumpFails
    let ?s = "self\<lparr>files := (files self)(F d \<mapsto> Truncated), logged := logged self @
               [(ERROR, ''Failed to write checkpoint to fallback location '' @ d)]\<rparr>"
    have a: "fallback_file ?s = F" "checkpoint_data ?s = cp" using Cons.prems by simp_all
    have b: "files ?s q = (if q = F d then Some Truncated else files self q)" by simp
    from DumpFails Cons.prems have st: "attempt_fallback_checkpoint_write io (d # ds) self =
      attempt_fallback_checkpoint_write io ds ?s" unfolding step by simp
    show ?thesis unfolding st Cons.IH[OF a] b using DumpFails
      by (cases "dropWhile (\<lambda>d. io (F d) \<noteq> WriteOk) ds") auto
  qed
qed

lemma attempt_fallback_logged_aux:
  "fallback_file self = F \<Longrightarrow>
   logged (attempt_fallback_checkpoint_write io dirs self) =
     logged self @
     map (\<lambda>d. (ERROR, ''Failed to write checkpoint to fallback location '' @ d))
       (takeWhile (\<lambda>d. io (F d) \<noteq> WriteOk) dirs) @
     [case dropWhile (\<lambda>d. io (F d) \<noteq> WriteOk) dirs of
        d # rest \<Rightarrow> (INFO, ''Checkpoint successfully written to fallback location: '' @ F d)
      | [] \<Rightarrow> (CRITICAL, ''All attempts to write checkpoint failed. Progress may be lost.'')]"
proof (induction dirs arbitrary: self)
  case Nil
  show ?case by (simp add: logging_def)
next
  case (Cons d ds)
  note step = attempt_fallback_step[of io d ds self]
  show ?case
  proof (cases "io (F d)")
    case WriteOk
    with Cons.prems show ?thesis unfolding step by simp
  next
    case OpenFails
    let ?s = "self\<lparr>logged := logged self @
               [(ERROR, ''Failed to write checkpoint to fallback location '' @ d)]\<rparr>"
    have a: "fallback_file ?s = F" using Cons.prems by simp
    from OpenFails Cons.prems have st: "attempt_fallback_checkpoint_write io (d # ds) self =
      attempt_fallback_checkpoint_write io ds ?s" unfolding step by simp
    show ?thesis unfolding st Cons.IH[OF a] using OpenFails by simp
  next
    case DumpFails
    let ?s = "self\<lparr>files := (files self)(F d \<mapsto> Truncated), logged := logged self @
               [(ERROR, ''Failed to write checkpoint to fallback location '' @ d)]\<rparr>"
    have a: "fallback_file ?s = F" using Cons.prems by simp
    from DumpFails Cons.prems have st: "attempt_fallback_checkpoint_write io (d # ds) self =
      attempt_fallback_checkpoint_write io ds ?s" unfolding step by simp
    show ?thesis unfolding st Cons.IH[OF a] using DumpFails by simp
  qed
qed

lemma write_checkpoint_failed:
  assumes "io (checkpoint_file self) \<noteq> WriteOk"
  shows "write_checkpoint io self =
     attempt_fallback_checkpoint_write io (fallback_directories self)
       (self\<lparr>files := (if io (checkpoint_file self) = DumpFails
                         then (files self)(checkpoint_file self \<mapsto> Truncated) else files self),
             logged := logged self @ [(ERROR, ''Failed to write checkpoint file'')]\<rparr>)"
  using assms
  by (cases "io (checkpoint_file self)") (simp_all add: write_checkpoint_def dump_to_def logging_def)

subsection \<open>Fallback locations of the checkpoint writer\<close>

text \<open>
  C8. When the write to the primary path fails, \<open>_write_checkpoint\<close> tries the fallback
  directories in list order. The first fallback file whose write succeeds receives the
  serialized state and the loop stops there; the paths tried before it are left untouched
  (the open failed) or truncated (the dump failed), and no other path changes. When every
  write fails, the last log entry is the critical one. In both cases the method returns and
  the in-memory checkpoint is unchanged.
\<close>

theorem write_checkpoint_fallback:
  assumes "io (checkpoint_file self) \<noteq> WriteOk"
  shows "files (write_checkpoint io self) q =
           (case dropWhile (\<lambda>d. io (fallback_file self d) \<noteq> WriteOk) (fallback_directories self) of
              d # rest \<Rightarrow>
                if q = fallback_file self d then Some (Doc (json_dump (checkpoint_data self)))
                else if q \<in> insert (checkpoint_file self)
                          (fallback_file self `
                             set (takeWhile (\<lambda>d. io (fallback_file self d) \<noteq> WriteOk)
                                    (fallback_directories self)))
                        \<and> io q = DumpFails
                then Some Truncated else files self q
            | [] \<Rightarrow>
                if q \<in> insert (checkpoint_file self)
                       (fallback_file self ` set (fallback_directories self))
                   \<and> io q = DumpFails
                then Some Truncated else files self q)
       \<and> logged (write_checkpoint io self) =
           logged self @ [(ERROR, ''Failed to write checkpoint file'')] @
           map (\<lambda>d. (ERROR, ''Failed to write checkpoint to fallback location '' @ d))
             (takeWhile (\<lambda>d. io (fallback_file self d) \<noteq> WriteOk) (fallback_directories self)) @
           [case dropWhile (\<lambda>d. io (fallback_file self d) \<noteq> WriteOk) (fallback_directories self) of
              d # rest \<Rightarrow>
                (INFO, ''Checkpoint successfully written to fallback location: '' @ fallback_file self d)
            | [] \<Rightarrow> (CRITICAL, ''All attempts to write checkpoint failed. Progress may be lost.'')]
       \<and> checkpoint_data (write_checkpoint io self) = checkpoint_data self"
proof -
  let ?s = "self\<lparr>files := (if io (checkpoint_file self) = DumpFails
                         then (files self)(checkpoint_file self \<mapsto> Truncated) else files self),
             logged := logged self @ [(ERROR, ''Failed to write checkpoint file'')]\<rparr>"
  have F: "fallback_file ?s = fallback_file self" by simp
  have C: "checkpoint_data ?s = checkpoint_data self" by simp
  have fs: "files ?s q = (if q = checkpoint_file self \<and> io q = DumpFails then Some Truncated
                          else files self q)" by auto
  have lg: "logged ?s = logged self @ [(ERROR, ''Failed to write checkpoint file'')]" by simp
  have wc: "write_checkpoint io self =
              attempt_fallback_checkpoint_write io (fallback_directories self) ?s"
    using assms by (rule write_checkpoint_failed)
  have 1: ?thesis if "dropWhile (\<lambda>d. io (fallback_file self d) \<noteq> WriteOk) (fallback_directories self) = []"
    unfolding wc attempt_fallback_files_aux[OF F C]
      attempt_fallback_logged_aux[OF F] fs lg that
    using fallback_fields[of io "fallback_directories self" ?s] by auto
  have 2: ?thesis if "dropWhile (\<lambda>d. io (fallback_file self d) \<noteq> WriteOk) (fallback_directories self) = d # r"
    for d r
  proof -
    from that have "io (fallback_file self d) = WriteOk"
      by (metis (mono_tags, lifting) dropWhile_eq_Cons_conv)
    with assms have "fallback_file self d \<noteq> checkpoint_file self" by auto
    then show ?thesis
      unfolding wc attempt_fallback_files_aux[OF F C]
        attempt_fallback_logged_aux[OF F] fs lg that
      using fallback_fields[of io "fallback_directories self" ?s] by auto
  qed
  show ?thesis
    by (cases "dropWhile (\<lambda>d. io (fallback_file self d) \<noteq> WriteOk) (fallback_directories self)")
       (use 1 2 in blast)+
qed

lemma example_fallback_files:
  "map (fallback_file example_orchestrator) (fallback_directories example_orchestrator) =
     [''/storage/brno2/home/u/job.json'', ''/storage/plzen1/home/u/job.json'',
      ''/storage/brno1-cerit/home/u/job.json'', ''tmp/job.json'']"
  by (simp add: example_orchestrator_def generate_fallback_directories_def fallback_file_def
      os_path_join_def)

text \<open>
  C8, witness: the primary path cannot be opened, the first fallback fails while dumping,
  the second succeeds and the remaining two are never tried.
\<close>

theorem write_checkpoint_fallback_witness:
  "files (write_checkpoint example_io example_orchestrator) ''/storage/plzen1/home/u/job.json''
     = Some (Doc (json_dump example_checkpoint))
   \<and> files (write_checkpoint example_io example_orchestrator) ''/storage/brno2/home/u/job.json''
     = Some Truncated
   \<and> files (write_checkpoint example_io example_orchestrator) ''ck/job.json'' = None
   \<and> files (write_checkpoint example_io example_orchestrator) ''tmp/job.json'' = None
   \<and> logged (write_checkpoint example_io example_orchestrator) =
       [(ERROR, ''Failed to write checkpoint file''),
        (ERROR, ''Failed to write checkpoint to fallback location /storage/brno2/home/u/''),
        (INFO, ''Checkpoint successfully written to fallback location: /storage/plzen1/home/u/job.json'')]"
proof -
  have p: "example_io (checkpoint_file example_orchestrator) \<noteq> WriteOk"
    by (simp add: example_io_def example_orchestrator_def)
  have d: "fallback_directories example_orchestrator =
      [''/storage/brno2/home/u/'', ''/storage/plzen1/home/u/'', ''/storage/brno1-cerit/home/u/'', ''tmp'']"
    by (simp add: example_orchestrator_def generate_fallback_directories_def)
  have f: "fallback_file example_orchestrator ''/storage/brno2/home/u/'' = ''/storage/brno2/home/u/job.json''"
      "fallback_file example_orchestrator ''/storage/plzen1/home/u/'' = ''/storage/plzen1/home/u/job.json''"
    using example_fallback_files unfolding d by simp_all
  have e: "example_io ''/storage/brno2/home/u/job.json'' = DumpFails"
     "example_io ''/storage/plzen1/home/u/job.json'' = WriteOk"
     "example_io ''ck/job.json'' = OpenFails" "example_io ''tmp/job.json'' = WriteOk"
    by (simp_all add: example_io_def)
  have c: "checkpoint_file example_orchestrator = ''ck/job.json''"
    "checkpoint_data example_orchestrator = example_checkpoint"
    "files example_orchestrator = Map.empty" "logged example_orchestrator = []"
    by (simp_all add: example_orchestrator_def)
  show ?thesis
    using write_checkpoint_fallback[of example_io example_orchestrator "''/storage/plzen1/home/u/job.json''", OF p]
      write_checkpoint_fallback[of example_io example_orchestrator "''/storage/brno2/home/u/job.json''", OF p]
      write_checkpoint_fallback[of example_io example_orchestrator "''ck/job.json''", OF p]
      write_checkpoint_fallback[of example_io example_orchestrator "''tmp/job.json''", OF p]
    unfolding d by (simp add: f e c)
qed

subsection \<open>Worker updates\<close>

text \<open>
  C4 (the code departs from the claim). An update without the \<open>status\<close> key is not
  dropped quietly: the \<open>except\<close> handler of \<open>handle_worker_update\<close> reads the
  unassigned local \<open>file\<close>, and the resulting \<open>UnboundLocalError\<close> leaves the method.
\<close>

theorem handle_worker_update_missing_key_raises:
  "handle_worker_update io self [''directory'' \<mapsto> PyStr dir, ''file'' \<mapsto> PyStr file]
     = (Some (UnboundLocalError ''file''), self)"
  by (simp add: handle_worker_update_def)

text \<open>
  The other two cases of C4 behave as claimed: an update with all three keys and a wrong type,
  and an update naming a file that no TaskRecord of the directory holds, only add a log entry.
\<close>

lemma handle_worker_update_wrong_types:
  assumes "update_info ''directory'' = Some d" "update_info ''file'' = Some f"
    "update_info ''status'' = Some s"
    "isinstance_str d = None \<or> isinstance_str f = None \<or> isinstance_int s = None"
  shows "handle_worker_update io self update_info =
           (None, logging ERROR ''Error handling worker update'' self)"
  using assms by (auto simp: handle_worker_update_def split: option.splits)

lemma update_task_progress_unknown_file:
  assumes "\<forall>t \<in> set (tasks (checkpoint_data self)). directory t = dir \<longrightarrow> \<not> dict_has (status t) file"
  shows "update_task_progress io self dir file v =
           logging ERROR (''Error updating task progress for '' @ file @ '' in '' @ dir) self"
proof (cases "index_of_first (\<lambda>t. directory t = dir) (tasks (checkpoint_data self))")
  case None
  then show ?thesis by (simp add: update_task_progress_def Let_def)
next
  case (Some i)
  from index_of_first_Some[OF Some] assms
  have "\<not> dict_has (status (tasks (checkpoint_data self) ! i)) file"
    by (metis nth_mem)
  with Some show ?thesis by (simp add: update_task_progress_def Let_def)
qed

lemma progress_agrees_iff:
  "progress_agrees c \<longleftrightarrow>
     (\<forall>t \<in> set (tasks c). \<forall>(f, v) \<in> set (status t).
        \<forall>p. map_of (progress c) f = Some p \<longrightarrow> p = v)"
  by (auto simp: progress_agrees_def list_all_iff split: option.splits)

lemma distinct_concat_nth:
  "distinct (concat xss) \<Longrightarrow> i < length xss \<Longrightarrow> j < length xss \<Longrightarrow> i \<noteq> j \<Longrightarrow>
     set (xss ! i) \<inter> set (xss ! j) = {}"
proof (induction xss arbitrary: i j)
  case Nil
  then show ?case by simp
next
  case (Cons xs xss)
  show ?case
  proof (cases i)
    case 0
    with Cons.prems obtain k where "j = Suc k" "k < length xss" by (cases j) auto
    with 0 Cons.prems(1) show ?thesis by fastforce
  next
    case (Suc i')
    show ?thesis
    proof (cases j)
      case 0
      with Suc Cons.prems show ?thesis by fastforce
    next
      case (Suc j')
      with \<open>i = Suc i'\<close> Cons.prems Cons.IH[of i' j'] show ?thesis by simp
    qed
  qed
qed

lemma distinct_concat_each: "distinct (concat xss) \<Longrightarrow> xs \<in> set xss \<Longrightarrow> distinct xs"
  by (induction xss) auto

lemma set_dict_set_distinct:
  "distinct (map fst d) \<Longrightarrow>
     set (dict_set d k v) = insert (k, v) {p \<in> set d. fst p \<noteq> k}"
  unfolding dict_set_def
  by (induction d) (auto simp: rev_image_eqI)

lemma map_of_foldl_zero:
  "map_of (foldl (\<lambda>p file. dict_set p file (0::int)) pr fs) f =
     (if f \<in> set fs then Some 0 else map_of pr f)"
  by (induction fs arbitrary: pr) (auto simp: dict_set_def update_conv')

lemma queue_batch_checkpoint:
  "checkpoint_data (queue_batch io t self) =
     (checkpoint_data self)\<lparr>progress :=
        foldl (\<lambda>p file. dict_set p file 0) (progress (checkpoint_data self)) (video_files t)\<rparr>"
  by (simp add: queue_batch_def Let_def write_checkpoint_fields)

lemma update_task_progress_cases:
  "(\<exists>i. index_of_first (\<lambda>t. directory t = dir) (tasks (checkpoint_data self)) = Some i
        \<and> dict_has (status (tasks (checkpoint_data self) ! i)) file)
   \<or> checkpoint_data (update_task_progress io self dir file v) = checkpoint_data self"
  by (auto simp: update_task_progress_def Let_def split: option.splits)

lemma update_preserves_agreement:
  assumes agree: "progress_agrees (checkpoint_data self)"
    and uniq: "distinct (all_files (checkpoint_data self))"
  shows "progress_agrees (checkpoint_data (update_task_progress io self dir file v))"
proof -
  let ?c = "checkpoint_data self"
  let ?ts = "tasks ?c"
  from update_task_progress_cases[of dir self "file" io v] show ?thesis
  proof
    assume "checkpoint_data (update_task_progress io self dir file v) = ?c"
    with agree show ?thesis by simp
  next
    assume "\<exists>i. index_of_first (\<lambda>t. directory t = dir) ?ts = Some i
        \<and> dict_has (status (?ts ! i)) file"
    then obtain i where i: "index_of_first (\<lambda>t. directory t = dir) ?ts = Some i"
      and has: "dict_has (status (?ts ! i)) file" by blast
    from index_of_first_Some[OF i] have len: "i < length ?ts" by simp
    let ?xss = "map (\<lambda>t. map fst (status t)) ?ts"
    from uniq have dc: "distinct (concat ?xss)" by (simp add: all_files_def)
    have di: "distinct (map fst (status (?ts ! i)))"
      using distinct_concat_each[OF dc, of "map fst (status (?ts ! i))"] len by simp
    have other: "file \<notin> fst ` set (status (?ts ! j))" if "j < length ?ts" "j \<noteq> i" for j
    proof -
      from distinct_concat_nth[OF dc, of i j] len that
      have "set (map fst (status (?ts ! i))) \<inter> set (map fst (status (?ts ! j))) = {}" by simp
      with has show ?thesis by (auto simp: dict_has_def)
    qed
    let ?c' = "checkpoint_data (update_task_progress io self dir file v)"
    have c': "?c' = ?c\<lparr>tasks := ?ts[i := (?ts ! i)\<lparr>status := dict_set (status (?ts ! i)) file v\<rparr>],
                         progress := dict_set (progress ?c) file v\<rparr>"
      by (rule update_task_progress_found[OF i has])
    have pr: "map_of (progress ?c') f = (if f = file then Some v else map_of (progress ?c) f)" for f
      by (simp add: c' dict_set_def update_conv')
    show ?thesis unfolding progress_agrees_iff
    proof (intro ballI, clarify)
      fix t f w p
      assume t: "t \<in> set (tasks ?c')" and fw: "(f, w) \<in> set (status t)"
        and p: "map_of (progress ?c') f = Some p"
      from t obtain j where j: "j < length ?ts" "t = tasks ?c' ! j"
        by (auto simp: c' in_set_conv_nth)
      show "p = w"
      proof (cases "j = i")
        case True
        with j len have "status t = dict_set (status (?ts ! i)) file v" by (simp add: c')
        with fw set_dict_set_distinct[OF di, of "file" v]
        consider "f = file" "w = v" | "(f, w) \<in> set (status (?ts ! i))" "f \<noteq> file" by auto
        then show ?thesis
        proof cases
          case 1
          with p pr show ?thesis by simp
        next
          case 2
          with p pr have "map_of (progress ?c) f = Some p" by simp
          with agree 2 len show ?thesis
            unfolding progress_agrees_iff by (metis (mono_tags, lifting) case_prodD nth_mem)
        qed
      next
        case False
        with j have st: "t = ?ts ! j" by (simp add: c')
        with other[OF j(1) False] fw have "f \<noteq> file" by force
        with p pr have "map_of (progress ?c) f = Some p" by simp
        with agree st j(1) fw show ?thesis
          unfolding progress_agrees_iff by (metis (mono_tags, lifting) case_prodD nth_mem)
      qed
    qed
  qed
qed

lemma queue_batch_preserves_agreement:
  assumes agree: "progress_agrees (checkpoint_data self)"
    and zero: "\<forall>r \<in> set (tasks (checkpoint_data self)). \<forall>(f, w) \<in> set (status r).
                 f \<in> set (video_files t) \<longrightarrow> w = 0"
  shows "progress_agrees (checkpoint_data (queue_batch io t self))"
  unfolding progress_agrees_iff queue_batch_checkpoint
proof (intro ballI, clarify)
  fix r f w p
  assume r: "r \<in> set (tasks ((checkpoint_data self)\<lparr>progress :=
        foldl (\<lambda>p file. dict_set p file 0) (progress (checkpoint_data self)) (video_files t)\<rparr>))"
    and fw: "(f, w) \<in> set (status r)"
    and p: "map_of (progress ((checkpoint_data self)\<lparr>progress :=
        foldl (\<lambda>p file. dict_set p file 0) (progress (checkpoint_data self)) (video_files t)\<rparr>)) f = Some p"
  from r have r': "r \<in> set (tasks (checkpoint_data self))" by simp
  show "p = w"
  proof (cases "f \<in> set (video_files t)")
    case True
    with zero r' fw have "w = 0" by blast
    moreover from p True have "p = 0" by (simp add: map_of_foldl_zero)
    ultimately show ?thesis by simp
  next
    case False
    with p have "map_of (progress (checkpoint_data self)) f = Some p"
      by (simp add: map_of_foldl_zero)
    with agree r' fw show ?thesis
      unfolding progress_agrees_iff by blast
  qed
qed

subsection \<open>Agreement of the progress map with the status maps\<close>

text \<open>
  C5 (as amended). From a checkpoint whose \<open>progress\<close> map agrees with the status maps:
  \<open>_update_task_progress\<close> keeps the agreement when no file is listed twice in the
  TaskRecords; \<open>_queue_batch\<close> writes 0 into \<open>progress\<close> for each file of the batch and
  leaves the status maps as they are, so it keeps the agreement when every file of the batch
  has status 0 in the TaskRecords.
\<close>

theorem progress_agreement_preserved:
  assumes "progress_agrees (checkpoint_data self)"
  shows "(distinct (all_files (checkpoint_data self)) \<longrightarrow>
            progress_agrees (checkpoint_data (update_task_progress io self dir file v)))
       \<and> ((\<forall>r \<in> set (tasks (checkpoint_data self)). \<forall>(f, w) \<in> set (status r).
               f \<in> set (video_files t) \<longrightarrow> w = 0) \<longrightarrow>
            progress_agrees (checkpoint_data (queue_batch io t self)))"
  using update_preserves_agreement[OF assms] queue_batch_preserves_agreement[OF assms]
  by blast

text \<open>
  C5, witness: in the example the update of \<open>A/2\<close> and the queueing of the batch that holds
  the not yet started file \<open>A/3\<close> both keep the agreement.
\<close>

theorem progress_agreement_preserved_witness:
  "progress_agrees (checkpoint_data example_orchestrator)
   \<and> distinct (all_files (checkpoint_data example_orchestrator))
   \<and> progress_agrees (checkpoint_data
        (update_task_progress always_ok example_orchestrator ''A'' ''A/2'' 9))
   \<and> progress_agrees (checkpoint_data
        (queue_batch always_ok
           \<lparr>task_directory = ''A'', video_files = [''A/3''], task_status = [(''A/3'', 0)]\<rparr>
           example_orchestrator))"
proof -
  have a: "progress_agrees (checkpoint_data example_orchestrator)"
    by (simp add: example_orchestrator_def example_checkpoint_def progress_agrees_def)
  have d: "distinct (all_files (checkpoint_data example_orchestrator))"
    by (simp add: example_orchestrator_def example_checkpoint_def all_files_def)
  have z: "\<forall>r \<in> set (tasks (checkpoint_data example_orchestrator)). \<forall>(f, w) \<in> set (status r).
      f \<in> set (video_files \<lparr>task_directory = ''A'', video_files = [''A/3''],
                            task_status = [(''A/3'', 0)]\<rparr>) \<longrightarrow> w = 0"
    by (simp add: example_orchestrator_def example_checkpoint_def)
  from progress_agreement_preserved[OF a, of always_ok "''A''" "''A/2''" 9
      "\<lparr>task_directory = ''A'', video_files = [''A/3''], task_status = [(''A/3'', 0)]\<rparr>"] a d z
  show ?thesis by blast
qed

text \<open>
  C5 as stated fails: the example checkpoint agrees, the planner queues the file \<open>A/2\<close>
  whose status is the frame index 5, and afterwards \<open>progress\<close> holds 0 for it while the
  TaskRecord still holds 5.
\<close>

theorem progress_agreement_counterexample:
  "progress_agrees (checkpoint_data example_orchestrator)
   \<and> \<not> progress_agrees (checkpoint_data (manage_tasks always_ok example_orchestrator))
   \<and> map_of (progress (checkpoint_data (manage_tasks always_ok example_orchestrator))) ''A/2'' = Some 0
   \<and> map_of (status (tasks (checkpoint_data (manage_tasks always_ok example_orchestrator)) ! 0)) ''A/2''
       = Some 5"
  by (simp add: example_orchestrator_def example_checkpoint_def progress_agrees_def
      manage_tasks_def manage_task_def queue_batch_def write_checkpoint_def dump_to_def
      always_ok_def dict_set_def Let_def)

declare chunks.simps [simp del]

lemma chunks_Nil [simp]: "chunks n [] = []"
  by (simp add: chunks.simps)





lemma dict_set_fresh: "k \<notin> fst ` set d \<Longrightarrow> dict_set d k v = d @ [(k, v)]"
  unfolding dict_set_def by (induction d) auto





subsection \<open>The planner\<close>




lemma foldl_dict_set_distinct:
  "distinct (map fst (acc @ ps)) \<Longrightarrow>
     foldl (\<lambda>d (k, v). dict_set d k v) acc ps = acc @ ps"
proof (induction ps arbitrary: acc)
  case Nil
  then show ?case by simp
next
  case (Cons p ps)
  obtain k v where p: "p = (k, v)" by (cases p)
  from Cons.prems p have "k \<notin> fst ` set acc" by force
  then have "dict_set acc k v = acc @ [(k, v)]" by (rule dict_set_fresh)
  moreover from Cons.prems p have "distinct (map fst ((acc @ [(k, v)]) @ ps))" by simp
  ultimately show ?case using Cons.IH[of "acc @ [(k, v)]"] p by simp
qed

lemma dict_of_pairs_distinct: "distinct (map fst ps) \<Longrightarrow> dict_of_pairs ps = ps"
  unfolding dict_of_pairs_def using foldl_dict_set_distinct[of "[]" ps] by simp

lemma those_list_map_Some: "those_list (map (\<lambda>x. Some (f x)) xs) = Some (map f xs)"
  by (induction xs) simp_all

lemma those_list_roundtrip:
  "(\<And>x. x \<in> set xs \<Longrightarrow> dec (enc x) = Some x) \<Longrightarrow> those_list (map dec (map enc xs)) = Some xs"
  by (induction xs) simp_all

lemma status_roundtrip:
  assumes "distinct (map fst d)"
  shows "status_of_json (json_of_status d) = Some d"
proof -
  let ?ps = "map (\<lambda>(f, v). (f, JInt v)) d"
  have mf: "map fst ?ps = map fst d" by (induction d) auto
  from assms have "distinct (map fst ?ps)" by (simp only: mf)
  then have dp: "dict_of_pairs ?ps = ?ps" by (rule dict_of_pairs_distinct)
  have v: "map (\<lambda>(f, v). int_of_json v) ?ps = map (\<lambda>x. Some (snd x)) d"
    by (induction d) (auto simp: int_of_json_def)
  have z: "zip (map fst ?ps) (map snd d) = d" by (induction d) auto
  show ?thesis
    by (simp add: json_of_status_def status_of_json_def dp v those_list_map_Some z
        del: map_map)
qed

lemma task_roundtrip:
  assumes "distinct (map fst (status t))"
  shows "task_of_json (json_of_task t) = Some t"
  by (simp add: json_of_task_def task_of_json_def dict_of_pairs_def dict_set_def
      status_roundtrip[OF assms])

lemma validate_roundtrip:
  assumes "valid_checkpoint c"
  shows "validate_checkpoint_format
           (dict_of_pairs
              [(''task_name'', JString (task_name c)),
               (''input_type_flags'', JArray (map JBool (input_type_flags c))),
               (''batch_size'', JInt (batch_size c)),
               (''max_workers'', JInt (max_workers c)),
               (''tasks'', JArray (map json_of_task (tasks c))),
               (''progress'', json_of_status (progress c))]) = Inr c"
proof -
  from assms have fl: "length (input_type_flags c) = 4" and bs: "\<not> batch_size c \<le> 0"
    and mw: "\<not> max_workers c \<le> 0" and dp: "distinct (map fst (progress c))"
    and dt: "\<And>t. t \<in> set (tasks c) \<Longrightarrow> distinct (map fst (status t))"
    by (auto simp: valid_checkpoint_def list_all_iff)
  have flags: "those_list (map bool_of_json (map JBool (input_type_flags c))) =
                 Some (input_type_flags c)"
    by (rule those_list_roundtrip) (simp add: bool_of_json_def)
  have ts: "those_list (map task_of_json (map json_of_task (tasks c))) = Some (tasks c)"
    by (rule those_list_roundtrip) (simp add: task_roundtrip dt)
  have pr: "status_of_json (json_of_status (progress c)) = Some (progress c)"
    by (rule status_roundtrip[OF dp])
  obtain ps where ps: "json_of_status (progress c) = JObject ps"
    by (simp add: json_of_status_def)
  have d: "dict_of_pairs
              [(''task_name'', JString (task_name c)),
               (''input_type_flags'', JArray (map JBool (input_type_flags c))),
               (''batch_size'', JInt (batch_size c)),
               (''max_workers'', JInt (max_workers c)),
               (''tasks'', JArray (map json_of_task (tasks c))),
               (''progress'', JObject ps)] =
              [(''task_name'', JString (task_name c)),
               (''input_type_flags'', JArray (map JBool (input_type_flags c))),
               (''batch_size'', JInt (batch_size c)),
               (''max_workers'', JInt (max_workers c)),
               (''tasks'', JArray (map json_of_task (tasks c))),
               (''progress'', JObject ps)]"
    by (rule dict_of_pairs_distinct) simp
  show ?thesis
    unfolding ps d using flags ts pr[unfolded ps] fl bs mw
    by (simp add: validate_checkpoint_format_def dict_has_def del: map_map)
qed

lemma load_roundtrip:
  assumes "valid_checkpoint c" "fs p = Some (Doc (json_dump c))"
  shows "load_checkpoint fs p = Inr c"
  using validate_roundtrip[OF assms(1)] assms(2)
  by (simp add: load_checkpoint_def json_dump_def)

subsection \<open>Persisting and loading the checkpoint\<close>

text \<open>
  C7. Let a valid checkpoint state be persisted and the write to the checkpoint file
  succeed. Reading the file back (\<open>json.load\<close>, the list-to-tuple conversion of
  \<open>input_type_flags\<close> and \<open>_validate_checkpoint_format\<close>) yields that state, and
  \<open>_initialize_checkpoint\<close>, run by any orchestrator on the same checkpoint file whatever
  it holds in memory, returns normally and holds that state afterwards.
\<close>

theorem persist_load_roundtrip:
  assumes "valid_checkpoint (checkpoint_data self)"
    and "io (checkpoint_file self) = WriteOk"
    and "checkpoint_file other = checkpoint_file self"
    and "files other = files (write_checkpoint io self)"
  shows "load_checkpoint (files (write_checkpoint io self)) (checkpoint_file self)
           = Inr (checkpoint_data self)
       \<and> initialize_checkpoint io' env other
           = (None, other\<lparr>checkpoint_data := checkpoint_data self\<rparr>)"
proof -
  from assms(2) have w: "write_checkpoint io self =
      self\<lparr>files := (files self)(checkpoint_file self \<mapsto> Doc (json_dump (checkpoint_data self)))\<rparr>"
    by (simp add: write_checkpoint_def dump_to_def)
  have l: "load_checkpoint (files (write_checkpoint io self)) (checkpoint_file self)
           = Inr (checkpoint_data self)"
    by (rule load_roundtrip[OF assms(1)]) (simp add: w)
  have "initialize_checkpoint io' env other = (None, other\<lparr>checkpoint_data := checkpoint_data self\<rparr>)"
    using l assms(3,4) by (simp add: initialize_checkpoint_def)
  with l show ?thesis by simp
qed

text \<open>
  C7, witness: the example checkpoint is valid and is written to \<open>ck/job.json\<close>. An
  orchestrator that holds another checkpoint in memory and finds that file holds the example
  checkpoint, with its four flags, after \<open>_initialize_checkpoint\<close>.
\<close>

theorem persist_load_roundtrip_witness:
  "load_checkpoint (files (write_checkpoint always_ok example_orchestrator)) ''ck/job.json''
     = Inr example_checkpoint
   \<and> checkpoint_data (scenario_orchestrator
        \<lparr>files := files (write_checkpoint always_ok example_orchestrator)\<rparr>) \<noteq> example_checkpoint
   \<and> initialize_checkpoint always_ok no_collaborators
        (scenario_orchestrator\<lparr>files := files (write_checkpoint always_ok example_orchestrator)\<rparr>)
     = (None, scenario_orchestrator
          \<lparr>files := files (write_checkpoint always_ok example_orchestrator),
           checkpoint_data := example_checkpoint\<rparr>)
   \<and> input_type_flags example_checkpoint = [False, False, True, False]"
proof -
  let ?other = "scenario_orchestrator\<lparr>files := files (write_checkpoint always_ok example_orchestrator)\<rparr>"
  have v: "valid_checkpoint (checkpoint_data example_orchestrator)"
    by (simp add: valid_checkpoint_def example_orchestrator_def example_checkpoint_def)
  have o: "always_ok (checkpoint_file example_orchestrator) = WriteOk"
    by (simp add: always_ok_def)
  have f: "checkpoint_file ?other = checkpoint_file example_orchestrator"
    by (simp add: scenario_orchestrator_def)
  have g: "files ?other = files (write_checkpoint always_ok example_orchestrator)"
    by simp
  have c: "checkpoint_file example_orchestrator = ''ck/job.json''"
    "checkpoint_data example_orchestrator = example_checkpoint"
    by (simp_all add: example_orchestrator_def)
  have d: "checkpoint_data ?other \<noteq> example_checkpoint"
    by (simp add: scenario_orchestrator_def example_checkpoint_def)
  from persist_load_roundtrip[where self = example_orchestrator and io = always_ok
      and other = ?other and io' = always_ok and env = no_collaborators, OF v o f g] d
  show ?thesis
    unfolding c by (simp add: example_checkpoint_def)
qed





subsection \<open>Exhausted retries\<close>




lemma dump_to_csv_buffer:
  "batch_data (dump_to_csv env w d) = batch_data w"
  "batch_table (dump_to_csv env w d) = batch_table w"
  "writer_batch_size (dump_to_csv env w d) = writer_batch_size w"
  "conn (dump_to_csv env w d) = conn w"
  "attempts (dump_to_csv env w d) = attempts w"
  by (simp_all add: dump_to_csv_def Let_def)

lemma foldl_dump_buffer:
  "batch_data (foldl (dump_to_csv env) w ds) = batch_data w"
  "batch_table (foldl (dump_to_csv env) w ds) = batch_table w"
  "writer_batch_size (foldl (dump_to_csv env) w ds) = writer_batch_size w"
  "conn (foldl (dump_to_csv env) w ds) = conn w"
  "attempts (foldl (dump_to_csv env) w ds) = attempts w"
  by (induction ds arbitrary: w) (simp_all add: dump_to_csv_buffer)

lemma retry_loop_buffer:
  "batch_data (snd (retry_loop env sql data r ut en su as w)) = batch_data w \<and>
   batch_table (snd (retry_loop env sql data r ut en su as w)) = batch_table w \<and>
   writer_batch_size (snd (retry_loop env sql data r ut en su as w)) = writer_batch_size w"
proof (induction as arbitrary: w)
  case Nil
  show ?case by simp
next
  case (Cons a as)
  let ?w1 = "w\<lparr>conn := True, attempts := Suc (attempts w)\<rparr>"
  let ?w2 = "foldl (dump_to_csv env) ?w1 (spilled data)"
  have b1: "batch_data ?w1 = batch_data w" "batch_table ?w1 = batch_table w"
    "writer_batch_size ?w1 = writer_batch_size w" by simp_all
  have b2: "batch_data ?w2 = batch_data w" "batch_table ?w2 = batch_table w"
    "writer_batch_size ?w2 = writer_batch_size w" by (simp_all add: foldl_dump_buffer)
  from Cons.IH[of ?w1] Cons.IH[of ?w2] b1 b2 show ?case
    by (auto simp add: Let_def)
qed


lemma close_connection_buffer:
  "batch_data (close_connection w) = batch_data w"
  "batch_table (close_connection w) = batch_table w"
  "writer_batch_size (close_connection w) = writer_batch_size w"
  by (simp_all add: close_connection_def)

lemma safe_execute_buffer:
  "batch_data (snd (safe_execute env w sql data r ut en su)) = batch_data w"
  "batch_table (snd (safe_execute env w sql data r ut en su)) = batch_table w"
  "writer_batch_size (snd (safe_execute env w sql data r ut en su)) = writer_batch_size w"
  using retry_loop_buffer[of env sql data r ut en su "map int [0..<nat r]" w]
  by (auto simp: safe_execute_def close_connection_buffer split: prod.splits option.splits)



lemma flush_batch_outcome:
  "batch_table (snd (flush_batch env w)) = batch_table w"
  "writer_batch_size (snd (flush_batch env w)) = writer_batch_size w"
  "fst (flush_batch env w) = None \<Longrightarrow> batch_data (snd (flush_batch env w)) = []"
  "fst (flush_batch env w) \<noteq> None \<Longrightarrow> batch_data (snd (flush_batch env w)) = batch_data w"
  using safe_execute_buffer[of env w "insert_query (batch_table w) (hd (batch_data w))"
      "batch_rows (batch_data w)" 3 True True True]
  by (cases "batch_data w = []"; auto simp: flush_batch_def split: prod.splits option.splits)+


lemma run_calls_snoc:
  "run_calls env w (cs @ [(t, d)]) = snd (add_to_batch env (run_calls env w cs) t d)"
  by (simp add: run_calls_def)

lemma add_to_batch_invariant:
  assumes ks: "subseq ks cs" "\<forall>c \<in> set ks. batch_table w = Some (fst c)"
    "batch_data w = map snd ks"
  shows "\<exists>ks'. subseq ks' (cs @ [(t, d)])
          \<and> (\<forall>c \<in> set ks'. batch_table (snd (add_to_batch env w t d)) = Some (fst c))
          \<and> batch_data (snd (add_to_batch env w t d)) = map snd ks'"
proof (cases "batch_table w \<noteq> None \<and> batch_table w \<noteq> Some t")
  case True
  note switch = this
  show ?thesis
  proof (cases "fst (flush_batch env w)")
    case (Some e)
    then have r: "snd (add_to_batch env w t d) = snd (flush_batch env w)"
      using switch by (cases "flush_batch env w") (simp add: add_to_batch_def)
    from Some have "batch_data (snd (flush_batch env w)) = batch_data w"
      by (intro flush_batch_outcome(4)) simp
    with ks show ?thesis unfolding r
      by (intro exI[of _ ks]) (simp add: flush_batch_outcome(1) subseq_rev_drop_many)
  next
    case None
    let ?w1 = "snd (flush_batch env w)"
    let ?w2 = "?w1\<lparr>batch_table := Some t, batch_data := batch_data ?w1 @ [d]\<rparr>"
    from None have e1: "batch_data ?w1 = []" by (rule flush_batch_outcome(3))
    have r: "snd (add_to_batch env w t d) =
        (if int (length (batch_data ?w2)) \<ge> writer_batch_size ?w2
         then snd (flush_batch env ?w2) else ?w2)"
      using switch None by (cases "flush_batch env w") (simp add: add_to_batch_def Let_def)
    have t2: "batch_table ?w2 = Some t" "batch_data ?w2 = [d]" using e1 by simp_all
    have sub: "subseq [(t, d)] (cs @ [(t, d)])" by (simp add: subseq_drop_many)
    consider "batch_data (snd (add_to_batch env w t d)) = []"
        "batch_table (snd (add_to_batch env w t d)) = Some t"
      | "batch_data (snd (add_to_batch env w t d)) = [d]"
        "batch_table (snd (add_to_batch env w t d)) = Some t"
      using r t2 flush_batch_outcome(1)[of env ?w2]
        flush_batch_outcome(3)[of env ?w2] flush_batch_outcome(4)[of env ?w2]
      by (cases "fst (flush_batch env ?w2)") (auto split: if_splits)
    then show ?thesis
    proof cases
      case 1
      then show ?thesis by (intro exI[of _ "[]"]) simp
    next
      case 2
      with sub show ?thesis by (intro exI[of _ "[(t, d)]"]) simp
    qed
  qed
next
  case False
  let ?w2 = "w\<lparr>batch_table := Some t, batch_data := batch_data w @ [d]\<rparr>"
  have r: "snd (add_to_batch env w t d) =
      (if int (length (batch_data ?w2)) \<ge> writer_batch_size ?w2
       then snd (flush_batch env ?w2) else ?w2)"
  proof -
    from False have "(if batch_table w \<noteq> None \<and> batch_table w \<noteq> Some t
                      then flush_batch env w else (None, w)) = (None, w)"
      by (simp only: if_False)
    then show ?thesis by (simp add: add_to_batch_def Let_def)
  qed
  have all_t: "\<forall>c \<in> set (ks @ [(t, d)]). Some t = Some (fst c)"
    using False ks(2) by auto
  have sub: "subseq (ks @ [(t, d)]) (cs @ [(t, d)])"
    using ks(1) by (simp add: list_emb_append_mono)
  have t2: "batch_table ?w2 = Some t" "batch_data ?w2 = map snd (ks @ [(t, d)])"
    using ks(3) by simp_all
  consider "batch_data (snd (add_to_batch env w t d)) = []"
      "batch_table (snd (add_to_batch env w t d)) = Some t"
    | "batch_data (snd (add_to_batch env w t d)) = map snd (ks @ [(t, d)])"
      "batch_table (snd (add_to_batch env w t d)) = Some t"
    using r t2 flush_batch_outcome(1)[of env ?w2]
      flush_batch_outcome(3)[of env ?w2] flush_batch_outcome(4)[of env ?w2]
    by (cases "fst (flush_batch env ?w2)") (auto split: if_splits)
  then show ?thesis
  proof cases
    case 1
    then show ?thesis by (intro exI[of _ "[]"]) simp
  next
    case 2
    with sub all_t show ?thesis by (intro exI[of _ "ks @ [(t, d)]"]) simp
  qed
qed

lemma run_calls_invariant:
  assumes "batch_data w = []"
  shows "\<exists>ks. subseq ks calls
          \<and> (\<forall>c \<in> set ks. batch_table (run_calls env w calls) = Some (fst c))
          \<and> batch_data (run_calls env w calls) = map snd ks"
proof (induction calls rule: rev_induct)
  case Nil
  from assms show ?case by (intro exI[of _ "[]"]) (simp add: run_calls_def)
next
  case (snoc c cs)
  obtain t d where c: "c = (t, d)" by (cases c)
  from snoc obtain ks where ks: "subseq ks cs"
    "\<forall>c \<in> set ks. batch_table (run_calls env w cs) = Some (fst c)"
    "batch_data (run_calls env w cs) = map snd ks" by blast
  from add_to_batch_invariant[OF ks, of t d env] show ?case
    unfolding c run_calls_snoc .
qed






lemma safe_execute_first_try:
  assumes "1 \<le> retries" "conn w \<or> connect_ok env (attempts w)" "statement_ok env (attempts w)"
  shows "safe_execute env w sql data retries ut en su =
     (None, w\<lparr>conn := False, attempts := Suc (attempts w),
               committed := committed w @ [(sql, data)]\<rparr>)"
proof -
  from assms(1) obtain n where "nat retries = Suc n" by (cases "nat retries") auto
  then have r: "map int [0..<nat retries] = 0 # map int [1..<Suc n]"
    by (simp add: upt_conv_Cons del: upt_Suc)
  show ?thesis
    unfolding safe_execute_def r using assms(2,3)
    by (auto simp: Let_def close_connection_def)
qed


subsection \<open>Flush triggers of the batch buffer\<close>




subsection \<open>One table per batch\<close>

text \<open>
  C10. After any sequence of \<open>add_to_batch\<close> calls on a writer that started with an empty
  buffer, the buffered rows are rows of earlier calls, in call order, and each of those calls
  named the table now recorded in \<open>batch_table\<close>. A flush of a non-empty buffer is therefore
  one \<open>safe_execute\<close> of an INSERT into that table carrying exactly these rows.
\<close>

theorem batch_rows_belong_to_batch_table:
  assumes "batch_data w = []"
  shows "\<exists>ks. subseq ks calls
          \<and> (\<forall>c \<in> set ks. batch_table (run_calls env w calls) = Some (fst c))
          \<and> batch_data (run_calls env w calls) = map snd ks
          \<and> (ks \<noteq> [] \<longrightarrow>
                flush_batch env (run_calls env w calls) =
                  (case safe_execute env (run_calls env w calls)
                          (insert_query (Some (fst (hd ks))) (snd (hd ks)))
                          (batch_rows (map snd ks)) 3 True True True of
                     (None, w') \<Rightarrow> (None, w'\<lparr>batch_data := []\<rparr>)
                   | (Some e, w') \<Rightarrow> (Some e, w')))"
proof -
  from run_calls_invariant[OF assms, of calls env] obtain ks where ks: "subseq ks calls"
    "\<forall>c \<in> set ks. batch_table (run_calls env w calls) = Some (fst c)"
    "batch_data (run_calls env w calls) = map snd ks" by blast
  have "flush_batch env (run_calls env w calls) =
          (case safe_execute env (run_calls env w calls)
                  (insert_query (Some (fst (hd ks))) (snd (hd ks)))
                  (batch_rows (map snd ks)) 3 True True True of
             (None, w') \<Rightarrow> (None, w'\<lparr>batch_data := []\<rparr>)
           | (Some e, w') \<Rightarrow> (Some e, w'))" if "ks \<noteq> []"
  proof -
    from that ks(2) have "batch_table (run_calls env w calls) = Some (fst (hd ks))" by simp
    with that ks(3) show ?thesis by (simp add: flush_batch_def hd_map)
  qed
  with ks show ?thesis by blast
qed

text \<open>
  C10, witness: rows for \<open>t\<close>, \<open>t\<close> and \<open>u\<close> with \<open>batch_size = 5\<close>. The call for
  \<open>u\<close> commits one INSERT with the two rows of \<open>t\<close>; the buffer then holds the row of
  \<open>u\<close> alone.
\<close>

theorem batch_rows_belong_to_batch_table_witness:
  "(\<exists>ks. subseq ks [(''t'', [(''a'', PyInt 1)]), (''t'', [(''a'', PyInt 2)]), (''u'', [(''b'', PyInt 3)])]
      \<and> (\<forall>c \<in> set ks. Some ''u'' = Some (fst c))
      \<and> [[(''b'', PyInt 3)]] = map snd ks)
   \<and> run_calls working_db (new_writer ''db'' 5)
        [(''t'', [(''a'', PyInt 1)]), (''t'', [(''a'', PyInt 2)]), (''u'', [(''b'', PyInt 3)])] =
      (new_writer ''db'' 5)
        \<lparr>batch_table := Some ''u'', batch_data := [[(''b'', PyInt 3)]], attempts := 1,
         committed := [(''INSERT INTO t (a) VALUES (?)'',
                        ListData [Tup [PyInt 1], Tup [PyInt 2]])]\<rparr>"
proof -
  let ?calls = "[(''t'', [(''a'', PyInt 1)]), (''t'', [(''a'', PyInt 2)]), (''u'', [(''b'', PyInt 3)])]"
  have e: "batch_data (new_writer ''db'' 5) = []" by (simp add: new_writer_def)
  have ex: "safe_execute working_db x sql data 3 True True True =
     (None, x\<lparr>conn := False, attempts := Suc (attempts x),
               committed := committed x @ [(sql, data)]\<rparr>)" for x sql data
    by (rule safe_execute_first_try) (simp_all add: working_db_def)
  have r: "run_calls working_db (new_writer ''db'' 5) ?calls =
      (new_writer ''db'' 5)
        \<lparr>batch_table := Some ''u'', batch_data := [[(''b'', PyInt 3)]], attempts := 1,
         committed := [(''INSERT INTO t (a) VALUES (?)'',
                        ListData [Tup [PyInt 1], Tup [PyInt 2]])]\<rparr>"
    by (simp add: run_calls_def add_to_batch_def flush_batch_def ex new_writer_def Let_def
        insert_query_def batch_rows_def)
  from batch_rows_belong_to_batch_table[OF e, of ?calls working_db]
  have "\<exists>ks. subseq ks ?calls
      \<and> (\<forall>c \<in> set ks. batch_table (run_calls working_db (new_writer ''db'' 5) ?calls) = Some (fst c))
      \<and> batch_data (run_calls working_db (new_writer ''db'' 5) ?calls) = map snd ks"
    by blast
  then have "\<exists>ks. subseq ks ?calls \<and> (\<forall>c \<in> set ks. Some ''u'' = Some (fst c))
      \<and> [[(''b'', PyInt 3)]] = map snd ks"
    unfolding r by (simp add: new_writer_def)
  with r show ?thesis by blast
qed

end
